theory Spec2Isabelle
  imports Main "HOL-Library.Word"
begin

section \<open>The resource manager of resmgr.c\<close>

text \<open>
  The server keeps one device (a 1024-byte buffer, its logical size, an access level and two
  counters) and answers one text command at a time. Every command body runs between
  \<^verbatim>\<open>pthread_mutex_lock\<close> and \<^verbatim>\<open>pthread_mutex_unlock\<close> on the device, so a command is one
  atomic step on the device: \<open>handle_command\<close> takes the device and returns the new one.
  Bytes are \<^typ>\<open>char\<close> (8 bits); the Russian texts of the source are written out as the UTF-8
  bytes the compiler puts into the string literals.
\<close>

subsection \<open>Constants and texts\<close>

definition DEVICE_BUFFER_SIZE :: nat where
  "DEVICE_BUFFER_SIZE = 1024"

definition NUL :: char where
  "NUL = CHR 0x00"

definition LF :: char where
  "LF = CHR 0x0A"

definition CR :: char where
  "CR = CHR 0x0D"

text \<open>
  The string literals of the source, byte by byte; ASCII runs are written as such.
  \<^item> \<open>welcome_text\<close>: what \<open>device_init\<close> copies into the buffer (69 bytes);
  \<^item> \<open>msg_bad_format\<close>: sent when \<^verbatim>\<open>sscanf\<close> converts nothing;
  \<^item> \<open>msg_read_only\<close>: sent by DATA and CLEAR when the access level is 0;
  \<^item> \<open>msg_bad_access\<close>: sent by SET_ACCESS for an unrecognised mode;
  \<^item> \<open>msg_unknown\<close>: sent in the final \<^verbatim>\<open>else\<close> branch;
  \<^item> \<open>msg_help\<close>: sent by HELP (seven lines).
\<close>

definition welcome_text :: string where
  "welcome_text =
    [CHR 0xD0, CHR 0x94, CHR 0xD0, CHR 0xBE, CHR 0xD0, CHR 0xB1, CHR 0xD1, CHR 0x80, CHR 0xD0,
     CHR 0xBE]
    @ '' ''
    @ [CHR 0xD0, CHR 0xBF, CHR 0xD0, CHR 0xBE, CHR 0xD0, CHR 0xB6, CHR 0xD0, CHR 0xB0,
       CHR 0xD0, CHR 0xBB, CHR 0xD0, CHR 0xBE, CHR 0xD0, CHR 0xB2, CHR 0xD0, CHR 0xB0,
       CHR 0xD1, CHR 0x82, CHR 0xD1, CHR 0x8C]
    @ '' '' @ [CHR 0xD0, CHR 0xB2] @ '' ''
    @ [CHR 0xD0, CHR 0xBC, CHR 0xD0, CHR 0xB5, CHR 0xD0, CHR 0xBD, CHR 0xD0, CHR 0xB5,
       CHR 0xD0, CHR 0xB4, CHR 0xD0, CHR 0xB6, CHR 0xD0, CHR 0xB5, CHR 0xD1, CHR 0x80]
    @ '' ''
    @ [CHR 0xD1, CHR 0x80, CHR 0xD0, CHR 0xB5, CHR 0xD1, CHR 0x81, CHR 0xD1, CHR 0x83,
       CHR 0xD1, CHR 0x80, CHR 0xD1, CHR 0x81, CHR 0xD0, CHR 0xBE, CHR 0xD0, CHR 0xB2]
    @ ''!''"

definition msg_bad_format :: string where
  "msg_bad_format =
    ''ERROR: ''
    @ [CHR 0xD0, CHR 0x9D, CHR 0xD0, CHR 0xB5, CHR 0xD0, CHR 0xB2, CHR 0xD0, CHR 0xB5,
       CHR 0xD1, CHR 0x80, CHR 0xD0, CHR 0xBD, CHR 0xD1, CHR 0x8B, CHR 0xD0, CHR 0xB9]
    @ '' ''
    @ [CHR 0xD1, CHR 0x84, CHR 0xD0, CHR 0xBE, CHR 0xD1, CHR 0x80, CHR 0xD0, CHR 0xBC,
       CHR 0xD0, CHR 0xB0, CHR 0xD1, CHR 0x82]
    @ '' ''
    @ [CHR 0xD0, CHR 0xBA, CHR 0xD0, CHR 0xBE, CHR 0xD0, CHR 0xBC, CHR 0xD0, CHR 0xB0,
       CHR 0xD0, CHR 0xBD, CHR 0xD0, CHR 0xB4, CHR 0xD1, CHR 0x8B]"

definition msg_read_only :: string where
  "msg_read_only =
    ''ERROR: ''
    @ [CHR 0xD0, CHR 0xA3, CHR 0xD1, CHR 0x81, CHR 0xD1, CHR 0x82, CHR 0xD1, CHR 0x80,
       CHR 0xD0, CHR 0xBE, CHR 0xD0, CHR 0xB9, CHR 0xD1, CHR 0x81, CHR 0xD1, CHR 0x82,
       CHR 0xD0, CHR 0xB2, CHR 0xD0, CHR 0xBE]
    @ '' ''
    @ [CHR 0xD0, CHR 0xB4, CHR 0xD0, CHR 0xBE, CHR 0xD1, CHR 0x81, CHR 0xD1, CHR 0x82,
       CHR 0xD1, CHR 0x83, CHR 0xD0, CHR 0xBF, CHR 0xD0, CHR 0xBD, CHR 0xD0, CHR 0xBE]
    @ '' ''
    @ [CHR 0xD1, CHR 0x82, CHR 0xD0, CHR 0xBE, CHR 0xD0, CHR 0xBB, CHR 0xD1, CHR 0x8C,
       CHR 0xD0, CHR 0xBA, CHR 0xD0, CHR 0xBE]
    @ '' '' @ [CHR 0xD0, CHR 0xB4, CHR 0xD0, CHR 0xBB, CHR 0xD1, CHR 0x8F] @ '' ''
    @ [CHR 0xD1, CHR 0x87, CHR 0xD1, CHR 0x82, CHR 0xD0, CHR 0xB5, CHR 0xD0, CHR 0xBD,
       CHR 0xD0, CHR 0xB8, CHR 0xD1, CHR 0x8F]"

definition msg_bad_access :: string where
  "msg_bad_access =
    ''ERROR: ''
    @ [CHR 0xD0, CHR 0x9D, CHR 0xD0, CHR 0xB5, CHR 0xD0, CHR 0xB2, CHR 0xD0, CHR 0xB5,
       CHR 0xD1, CHR 0x80, CHR 0xD0, CHR 0xBD, CHR 0xD1, CHR 0x8B, CHR 0xD0, CHR 0xB9]
    @ '' ''
    @ [CHR 0xD1, CHR 0x83, CHR 0xD1, CHR 0x80, CHR 0xD0, CHR 0xBE, CHR 0xD0, CHR 0xB2,
       CHR 0xD0, CHR 0xB5, CHR 0xD0, CHR 0xBD, CHR 0xD1, CHR 0x8C]
    @ '' ''
    @ [CHR 0xD0, CHR 0xB4, CHR 0xD0, CHR 0xBE, CHR 0xD1, CHR 0x81, CHR 0xD1, CHR 0x82,
       CHR 0xD1, CHR 0x83, CHR 0xD0, CHR 0xBF, CHR 0xD0, CHR 0xB0]
    @ '' (read-only/read-write)''"

definition msg_unknown :: string where
  "msg_unknown =
    ''ERROR: ''
    @ [CHR 0xD0, CHR 0x9D, CHR 0xD0, CHR 0xB5, CHR 0xD0, CHR 0xB8, CHR 0xD0, CHR 0xB7,
       CHR 0xD0, CHR 0xB2, CHR 0xD0, CHR 0xB5, CHR 0xD1, CHR 0x81, CHR 0xD1, CHR 0x82,
       CHR 0xD0, CHR 0xBD, CHR 0xD0, CHR 0xB0, CHR 0xD1, CHR 0x8F]
    @ '' ''
    @ [CHR 0xD0, CHR 0xBA, CHR 0xD0, CHR 0xBE, CHR 0xD0, CHR 0xBC, CHR 0xD0, CHR 0xB0,
       CHR 0xD0, CHR 0xBD, CHR 0xD0, CHR 0xB4, CHR 0xD0, CHR 0xB0]
    @ ''. ''
    @ [CHR 0xD0, CHR 0x98, CHR 0xD1, CHR 0x81, CHR 0xD0, CHR 0xBF, CHR 0xD0, CHR 0xBE,
       CHR 0xD0, CHR 0xBB, CHR 0xD1, CHR 0x8C, CHR 0xD0, CHR 0xB7, CHR 0xD1, CHR 0x83,
       CHR 0xD0, CHR 0xB9, CHR 0xD1, CHR 0x82, CHR 0xD0, CHR 0xB5]
    @ '' HELP '' @ [CHR 0xD0, CHR 0xB4, CHR 0xD0, CHR 0xBB, CHR 0xD1, CHR 0x8F] @ '' ''
    @ [CHR 0xD1, CHR 0x81, CHR 0xD0, CHR 0xBF, CHR 0xD1, CHR 0x80, CHR 0xD0, CHR 0xB0,
       CHR 0xD0, CHR 0xB2, CHR 0xD0, CHR 0xBA, CHR 0xD0, CHR 0xB8]
    @ ''.''"

definition msg_help :: string where
  "msg_help =
    [CHR 0xD0, CHR 0x94, CHR 0xD0, CHR 0xBE, CHR 0xD1, CHR 0x81, CHR 0xD1, CHR 0x82, CHR 0xD1,
     CHR 0x83, CHR 0xD0, CHR 0xBF, CHR 0xD0, CHR 0xBD, CHR 0xD1, CHR 0x8B, CHR 0xD0, CHR 0xB5]
    @ '' ''
    @ [CHR 0xD0, CHR 0xBA, CHR 0xD0, CHR 0xBE, CHR 0xD0, CHR 0xBC, CHR 0xD0, CHR 0xB0,
       CHR 0xD0, CHR 0xBD, CHR 0xD0, CHR 0xB4, CHR 0xD1, CHR 0x8B]
    @ '':'' @ [CHR 0x0A] @ ''READ - ''
    @ [CHR 0xD1, CHR 0x87, CHR 0xD1, CHR 0x82, CHR 0xD0, CHR 0xB5, CHR 0xD0, CHR 0xBD,
       CHR 0xD0, CHR 0xB8, CHR 0xD0, CHR 0xB5]
    @ '' ''
    @ [CHR 0xD0, CHR 0xB4, CHR 0xD0, CHR 0xB0, CHR 0xD0, CHR 0xBD, CHR 0xD0, CHR 0xBD,
       CHR 0xD1, CHR 0x8B, CHR 0xD1, CHR 0x85, CHR 0x0A]
    @ ''DATA <text> - ''
    @ [CHR 0xD0, CHR 0xB7, CHR 0xD0, CHR 0xB0, CHR 0xD0, CHR 0xBF, CHR 0xD0, CHR 0xB8,
       CHR 0xD1, CHR 0x81, CHR 0xD1, CHR 0x8C]
    @ '' ''
    @ [CHR 0xD0, CHR 0xB4, CHR 0xD0, CHR 0xB0, CHR 0xD0, CHR 0xBD, CHR 0xD0, CHR 0xBD,
       CHR 0xD1, CHR 0x8B, CHR 0xD1, CHR 0x85, CHR 0x0A]
    @ ''CLEAR - ''
    @ [CHR 0xD0, CHR 0xBE, CHR 0xD1, CHR 0x87, CHR 0xD0, CHR 0xB8, CHR 0xD1, CHR 0x81,
       CHR 0xD1, CHR 0x82, CHR 0xD0, CHR 0xBA, CHR 0xD0, CHR 0xB0]
    @ '' ''
    @ [CHR 0xD0, CHR 0xB1, CHR 0xD1, CHR 0x83, CHR 0xD1, CHR 0x84, CHR 0xD0, CHR 0xB5,
       CHR 0xD1, CHR 0x80, CHR 0xD0, CHR 0xB0, CHR 0x0A]
    @ ''STATUS - ''
    @ [CHR 0xD1, CHR 0x81, CHR 0xD1, CHR 0x82, CHR 0xD0, CHR 0xB0, CHR 0xD1, CHR 0x82,
       CHR 0xD0, CHR 0xB8, CHR 0xD1, CHR 0x81, CHR 0xD1, CHR 0x82, CHR 0xD0, CHR 0xB8,
       CHR 0xD0, CHR 0xBA, CHR 0xD0, CHR 0xB0]
    @ '' ''
    @ [CHR 0xD1, CHR 0x83, CHR 0xD1, CHR 0x81, CHR 0xD1, CHR 0x82, CHR 0xD1, CHR 0x80,
       CHR 0xD0, CHR 0xBE, CHR 0xD0, CHR 0xB9, CHR 0xD1, CHR 0x81, CHR 0xD1, CHR 0x82,
       CHR 0xD0, CHR 0xB2, CHR 0xD0, CHR 0xB0, CHR 0x0A]
    @ ''SET_ACCESS <read-only|read-write> - ''
    @ [CHR 0xD1, CHR 0x83, CHR 0xD1, CHR 0x81, CHR 0xD1, CHR 0x82, CHR 0xD0, CHR 0xB0,
       CHR 0xD0, CHR 0xBD, CHR 0xD0, CHR 0xBE, CHR 0xD0, CHR 0xB2, CHR 0xD0, CHR 0xBA,
       CHR 0xD0, CHR 0xB0]
    @ '' ''
    @ [CHR 0xD1, CHR 0x83, CHR 0xD1, CHR 0x80, CHR 0xD0, CHR 0xBE, CHR 0xD0, CHR 0xB2,
       CHR 0xD0, CHR 0xBD, CHR 0xD1, CHR 0x8F]
    @ '' ''
    @ [CHR 0xD0, CHR 0xB4, CHR 0xD0, CHR 0xBE, CHR 0xD1, CHR 0x81, CHR 0xD1, CHR 0x82,
       CHR 0xD1, CHR 0x83, CHR 0xD0, CHR 0xBF, CHR 0xD0, CHR 0xB0, CHR 0x0A]
    @ ''HELP - '' @ [CHR 0xD1, CHR 0x8D, CHR 0xD1, CHR 0x82, CHR 0xD0, CHR 0xB0] @ '' ''
    @ [CHR 0xD1, CHR 0x81, CHR 0xD0, CHR 0xBF, CHR 0xD1, CHR 0x80, CHR 0xD0, CHR 0xB0,
       CHR 0xD0, CHR 0xB2, CHR 0xD0, CHR 0xBA, CHR 0xD0, CHR 0xB0]"

subsection \<open>C strings and formatting\<close>

text \<open>The bytes of a C string held in an array: everything before the first NUL.\<close>

definition c_str :: "char list \<Rightarrow> string" where
  "c_str xs = takeWhile (\<lambda>c. c \<noteq> NUL) xs"

definition strlen :: "char list \<Rightarrow> nat" where
  "strlen xs = length (c_str xs)"

text \<open>\<^verbatim>\<open>strcpy(dst, src)\<close>: the string and its terminator overwrite the front of the array.\<close>

definition strcpy :: "char list \<Rightarrow> string \<Rightarrow> char list" where
  "strcpy dst src = c_str src @ NUL # drop (Suc (strlen src)) dst"

text \<open>\<^verbatim>\<open>isspace\<close> in the C locale (the server never calls \<^verbatim>\<open>setlocale\<close>).\<close>

definition isspace :: "char \<Rightarrow> bool" where
  "isspace c \<longleftrightarrow> c \<in> set [CHR '' '', CHR 0x09, CHR 0x0A, CHR 0x0B, CHR 0x0C, CHR 0x0D]"

text \<open>\<^verbatim>\<open>snprintf\<close> into an array of \<open>n\<close> bytes keeps at most \<open>n - 1\<close> bytes of the text.\<close>

definition snprintf :: "nat \<Rightarrow> string \<Rightarrow> string" where
  "snprintf n s = take (n - 1) s"

text \<open>Decimal digits, as \<^verbatim>\<open>%zu\<close> and \<^verbatim>\<open>%lu\<close> print them.\<close>

definition digit :: "nat \<Rightarrow> char" where
  "digit n = ''0123456789'' ! (n mod 10)"

function dec :: "nat \<Rightarrow> string" where
  "dec n = (if n < 10 then [digit n] else dec (n div 10) @ [digit n])"
  by pat_completeness auto
termination
  by (relation "measure id") auto

declare dec.simps [simp del]

subsection \<open>The device\<close>

text \<open>
  \<^verbatim>\<open>device_t\<close>. \<open>buffer\<close> is the whole array; \<^verbatim>\<open>size_t\<close> fields are natural numbers (the
  code only ever stores values below 1024 in them); \<^verbatim>\<open>unsigned long\<close> counters are 64-bit
  words, so \<open>+ 1\<close> wraps as in C. The mutex is the atomicity of a step.
\<close>

record device_t =
  buffer :: "char list"
  buffer_size :: nat
  read_pos :: nat
  write_pos :: nat
  access_level :: int
  read_count :: "64 word"
  write_count :: "64 word"

text \<open>\<^verbatim>\<open>device_init\<close>: \<^verbatim>\<open>memset\<close> to zero, read-write access, the welcome text in the buffer.\<close>

definition device_zero :: device_t where
  "device_zero = \<lparr>buffer = replicate DEVICE_BUFFER_SIZE NUL, buffer_size = 0, read_pos = 0,
     write_pos = 0, access_level = 0, read_count = 0, write_count = 0\<rparr>"

definition device_init :: device_t where
  "device_init =
     (let d1 = device_zero\<lparr>access_level := 1\<rparr>;
          d2 = d1\<lparr>buffer := strcpy (buffer d1) welcome_text\<rparr>
      in d2\<lparr>buffer_size := strlen (buffer d2)\<rparr>)"

subsection \<open>Parsing: the call of sscanf\<close>

text \<open>
  \<^verbatim>\<open>sscanf(cmd, "%63s %1023[^\n]", command, argument)\<close> reads the C string \<open>cmd\<close>:
  \<^item> \<^verbatim>\<open>%63s\<close> skips white space and takes at most 63 bytes that are not white space; when
    the input ends before any such byte, the call returns \<^verbatim>\<open>EOF\<close> (-1);
  \<^item> the blank in the format skips white space;
  \<^item> \<^verbatim>\<open>%1023[^\n]\<close> takes at most 1023 bytes other than line feed; when there is none the
    call returns 1 and \<^verbatim>\<open>argument\<close> is not written.
\<close>

datatype scan = ScanEOF | Scan1 string | Scan2 string string

definition sscanf_cmd :: "string \<Rightarrow> scan" where
  "sscanf_cmd cmd =
     (let s1 = dropWhile isspace (c_str cmd) in
      if s1 = [] then ScanEOF
      else
        let command = take 63 (takeWhile (\<lambda>c. \<not> isspace c) s1);
            s2 = dropWhile isspace (drop (length command) s1);
            argument = take 1023 (takeWhile (\<lambda>c. c \<noteq> LF) s2)
        in if argument = [] then Scan1 command else Scan2 command argument)"

text \<open>The value \<^verbatim>\<open>sscanf\<close> returns.\<close>

fun conversions :: "scan \<Rightarrow> int" where
  "conversions ScanEOF = - 1"
| "conversions (Scan1 c) = 1"
| "conversions (Scan2 c a) = 2"

text \<open>The C string in \<^verbatim>\<open>command\<close> after the call (the array is only read when one was stored).\<close>

fun command_of :: "scan \<Rightarrow> string" where
  "command_of ScanEOF = []"
| "command_of (Scan1 c) = c"
| "command_of (Scan2 c a) = c"

text \<open>
  The array \<^verbatim>\<open>argument\<close> after the call. It is a local array without initialiser:
  \<open>stale\<close> is whatever the stack holds in its place when \<open>handle_command\<close> is entered, and
  it is still there when the second conversion stores nothing.
\<close>

fun argument_of :: "char list \<Rightarrow> scan \<Rightarrow> char list" where
  "argument_of stale (Scan2 c a) = a @ NUL # drop (Suc (length a)) stale"
| "argument_of stale sc = stale"

subsection \<open>The dispatcher\<close>

text \<open>
  What one call of \<open>handle_command\<close> does: the value it returns, the texts it passes to
  \<open>send_response\<close> in call order, and the device afterwards.
\<close>

record outcome =
  ret :: int
  sent :: "string list"
  dev :: device_t

text \<open>
  \<^verbatim>\<open>strlen(argument)\<close> on an array that holds no NUL runs past its 1024 bytes and yields
  some value of at least 1024; the code then cuts every such value to 1023, so the model's
  \<open>strlen\<close> (the length of the list there) gives the same \<open>len\<close>. The precision
  \<^verbatim>\<open>(int)device.buffer_size\<close> of READ is the size itself for the sizes the code stores.
\<close>

definition handle_command :: "device_t \<Rightarrow> char list \<Rightarrow> string \<Rightarrow> outcome" where
  "handle_command d stale cmd =
     (let sc = sscanf_cmd cmd in
      if conversions sc < 1 then \<lparr>ret = - 1, sent = [msg_bad_format], dev = d\<rparr>
      else
        let command = command_of sc; argument = argument_of stale sc in
        if command = ''READ'' then
          (let d1 = d\<lparr>read_count := read_count d + 1\<rparr> in
           if buffer_size d1 = 0 then \<lparr>ret = 0, sent = [''BUFFER_EMPTY''], dev = d1\<rparr>
           else \<lparr>ret = 0,
                  sent = [snprintf (DEVICE_BUFFER_SIZE + 64)
                            (''DATA: '' @ take (buffer_size d1) (c_str (buffer d1)))],
                  dev = d1\<rparr>)
        else if command = ''DATA'' then
          (if access_level d = 0 then \<lparr>ret = 0, sent = [msg_read_only], dev = d\<rparr>
           else
             let len0 = strlen argument;
                 len = (if len0 \<ge> DEVICE_BUFFER_SIZE then DEVICE_BUFFER_SIZE - 1 else len0);
                 d1 = d\<lparr>buffer := (take len argument @ drop len (buffer d))[len := NUL]\<rparr>;
                 d2 = d1\<lparr>buffer_size := len\<rparr>;
                 d3 = d2\<lparr>write_count := write_count d2 + 1\<rparr>
             in \<lparr>ret = 0, sent = [snprintf 64 (''WRITTEN: '' @ dec len @ '' bytes'')],
                  dev = d3\<rparr>)
        else if command = ''CLEAR'' then
          (if access_level d = 0 then \<lparr>ret = 0, sent = [msg_read_only], dev = d\<rparr>
           else \<lparr>ret = 0, sent = [''BUFFER_CLEARED''],
                  dev = d\<lparr>buffer := (buffer d)[0 := NUL], buffer_size := 0,
                          read_pos := 0, write_pos := 0\<rparr>\<rparr>)
        else if command = ''STATUS'' then
          \<lparr>ret = 0,
           sent = [snprintf 256
                     (''STATUS: buffer_size='' @ dec (buffer_size d)
                      @ '', reads='' @ dec (unat (read_count d))
                      @ '', writes='' @ dec (unat (write_count d))
                      @ '', access=''
                      @ (if access_level d \<noteq> 0 then ''read-write'' else ''read-only''))],
           dev = d\<rparr>
        else if command = ''SET_ACCESS'' then
          (if c_str argument = ''read-only'' then
             \<lparr>ret = 0, sent = [''ACCESS_SET: read-only''], dev = d\<lparr>access_level := 0\<rparr>\<rparr>
           else if c_str argument = ''read-write'' then
             \<lparr>ret = 0, sent = [''ACCESS_SET: read-write''], dev = d\<lparr>access_level := 1\<rparr>\<rparr>
           else \<lparr>ret = 0, sent = [msg_bad_access], dev = d\<rparr>)
        else if command = ''HELP'' then \<lparr>ret = 0, sent = [msg_help], dev = d\<rparr>
        else \<lparr>ret = 0, sent = [msg_unknown], dev = d\<rparr>)"

text \<open>
  \<^verbatim>\<open>handle_command(client_fd, cmd, cmd_len)\<close> never uses \<^verbatim>\<open>cmd_len\<close>, and \<^verbatim>\<open>client_fd\<close> only
  names the socket of the response; the model takes the device, \<open>stale\<close> and the line.
  A slot of a thread stack that was never written holds zero bytes:
\<close>

definition fresh_stack :: "char list" where
  "fresh_stack = replicate DEVICE_BUFFER_SIZE NUL"

text \<open>
  The array \<^verbatim>\<open>argument\<close> as one call leaves it: what the next call on the same stack finds.
\<close>

definition argument_after :: "char list \<Rightarrow> string \<Rightarrow> char list" where
  "argument_after stale cmd = argument_of stale (sscanf_cmd cmd)"

text \<open>
  The server handles one command after another (the mutex orders the commands of all clients).
  Each command comes with the stack content \<open>stale\<close> that its thread finds in \<^verbatim>\<open>argument\<close>.
  \<open>run\<close> lists the outcomes, \<open>final\<close> is the device after the last command.
\<close>

fun run :: "device_t \<Rightarrow> (char list \<times> string) list \<Rightarrow> outcome list" where
  "run d [] = []"
| "run d (x # xs) =
     (let r = handle_command d (fst x) (snd x) in r # run (dev r) xs)"

fun final :: "device_t \<Rightarrow> (char list \<times> string) list \<Rightarrow> device_t" where
  "final d [] = d"
| "final d (x # xs) = final (dev (handle_command d (fst x) (snd x))) xs"

text \<open>The devices the server can be in: after \<open>device_init\<close>, and after every command.\<close>

inductive reachable :: "device_t \<Rightarrow> bool" where
  init: "reachable device_init"
| step: "reachable d \<Longrightarrow> reachable (dev (handle_command d stale cmd))"

text \<open>
  What the code maintains on the device: the array keeps its size, the logical size is an
  index into it, the byte at that index is NUL and no byte before it is.
\<close>

definition dev_inv :: "device_t \<Rightarrow> bool" where
  "dev_inv d \<longleftrightarrow>
     length (buffer d) = DEVICE_BUFFER_SIZE \<and>
     buffer_size d \<le> DEVICE_BUFFER_SIZE - 1 \<and>
     buffer d ! buffer_size d = NUL \<and>
     NUL \<notin> set (take (buffer_size d) (buffer d))"

text \<open>The keyword of a line in the words of the protocol: its first token.\<close>

definition keyword :: "string \<Rightarrow> string" where
  "keyword cmd = takeWhile (\<lambda>c. \<not> isspace c) (dropWhile isspace (c_str cmd))"

definition vocabulary :: "string list" where
  "vocabulary = [''READ'', ''DATA'', ''CLEAR'', ''STATUS'', ''SET_ACCESS'', ''HELP'']"

subsection \<open>The connection handler\<close>

text \<open>
  \<open>client_thread\<close> receives \<open>n\<close> bytes into \<^verbatim>\<open>buf\<close>, terminates them and strips the line end:
  \<^verbatim>\<open>buf[n] = '\0'; if (buf[n-1] == '\n') buf[n-1] = '\0'; if (buf[n-2] == '\r') buf[n-2] = '\0';\<close>
  The result is the front \<open>n + 1\<close> bytes of \<^verbatim>\<open>buf\<close>, which hold the C string passed on. With
  \<open>n = 1\<close> the last test reads \<^verbatim>\<open>buf[-1]\<close>, outside the array: no value (\<open>None\<close>); with
  \<open>n = 0\<close> the loop has ended before.
\<close>

definition client_thread_buf :: "char list \<Rightarrow> char list option" where
  "client_thread_buf msg =
     (let n = length msg in
      if n < 2 then None
      else
        let buf0 = msg @ [NUL];
            buf1 = (if buf0 ! (n - 1) = LF then buf0[n - 1 := NUL] else buf0);
            buf2 = (if buf1 ! (n - 2) = CR then buf1[n - 2 := NUL] else buf1)
        in Some buf2)"

definition client_thread_step :: "device_t \<Rightarrow> char list \<Rightarrow> char list \<Rightarrow> outcome option" where
  "client_thread_step d stale msg = map_option (handle_command d stale) (client_thread_buf msg)"

subsection \<open>Sending and signals\<close>

text \<open>
  \<open>install_signals\<close> binds the three signals to \<open>on_signal\<close>, which closes the listener,
  unlinks the socket path and ends the process with \<^verbatim>\<open>_exit(0)\<close>.
\<close>

datatype signal = SIGINT | SIGTERM | SIGPIPE

datatype process = Running | Exited int

definition on_signal :: "signal \<Rightarrow> process" where
  "on_signal signo = Exited 0"

definition install_signals :: "signal \<Rightarrow> signal \<Rightarrow> process" where
  "install_signals sg =
     (case sg of SIGINT \<Rightarrow> on_signal | SIGTERM \<Rightarrow> on_signal | SIGPIPE \<Rightarrow> on_signal)"

text \<open>
  What \<^verbatim>\<open>send(client_fd, response, len, 0)\<close> can do: accept \<open>k\<close> bytes, fail with -1, or
  find that the peer has closed the socket, which raises \<^verbatim>\<open>SIGPIPE\<close> in the sending thread
  (the flags are 0). \<open>send_response\<close> calls it once; on a short or failed send it only
  prints a diagnostic. The result is the bytes that went out and the state of the process.
\<close>

datatype send_result = Sent nat | SendError | PeerClosed

definition send_response :: "send_result \<Rightarrow> string \<Rightarrow> string \<times> process" where
  "send_response r response =
     (case r of
        Sent k \<Rightarrow> (take k response, Running)
      | SendError \<Rightarrow> ([], Running)
      | PeerClosed \<Rightarrow> ([], install_signals SIGPIPE SIGPIPE))"

text \<open>The calls of \<open>send_response\<close> that one command makes, carried out on the socket.\<close>

definition deliver :: "send_result \<Rightarrow> outcome \<Rightarrow> (string \<times> process) list" where
  "deliver r out = map (send_response r) (sent out)"

text \<open>Two parts of \<open>handle_command\<close> by name: the length \<open>len\<close> that the DATA branch computes
  from \<^verbatim>\<open>argument\<close>, and the text that the STATUS branch formats.\<close>

definition data_len :: "char list \<Rightarrow> nat" where
  "data_len argument =
     (if strlen argument \<ge> DEVICE_BUFFER_SIZE then DEVICE_BUFFER_SIZE - 1 else strlen argument)"

definition status_line :: "device_t \<Rightarrow> string" where
  "status_line d =
     snprintf 256
       (''STATUS: buffer_size='' @ dec (buffer_size d)
        @ '', reads='' @ dec (unat (read_count d))
        @ '', writes='' @ dec (unat (write_count d))
        @ '', access='' @ (if access_level d \<noteq> 0 then ''read-write'' else ''read-only''))"

section \<open>Facts about the model\<close>

subsection \<open>C strings\<close>

lemma c_str_no_NUL: "NUL \<notin> set (c_str xs)"
  unfolding c_str_def by (metis (mono_tags, lifting) set_takeWhileD)

lemma c_str_id: "NUL \<notin> set xs \<Longrightarrow> c_str xs = xs"
  unfolding c_str_def by (auto simp: takeWhile_eq_all_conv)

lemma c_str_append_NUL: "NUL \<notin> set xs \<Longrightarrow> c_str (xs @ NUL # ys) = xs"
  unfolding c_str_def by (auto simp: takeWhile_tail)

lemma strlen_le: "strlen xs \<le> length xs"
  unfolding strlen_def c_str_def by (rule length_takeWhile_le)

subsection \<open>Parsing\<close>

lemma conversions_less_1: "conversions sc < 1 \<longleftrightarrow> sc = ScanEOF"
  by (cases sc) simp_all

lemma sscanf_EOF_iff: "sscanf_cmd cmd = ScanEOF \<longleftrightarrow> (\<forall>c \<in> set (c_str cmd). isspace c)"
  unfolding sscanf_cmd_def Let_def by auto

lemma command_of_keyword:
  "sscanf_cmd cmd \<noteq> ScanEOF \<Longrightarrow> command_of (sscanf_cmd cmd) = take 63 (keyword cmd)"
  unfolding sscanf_cmd_def keyword_def Let_def by auto

lemma takeWhile_not_dropWhile_Nil:
  "takeWhile (\<lambda>c. \<not> P c) (dropWhile P xs) = [] \<longleftrightarrow> dropWhile P xs = []"
proof (cases "dropWhile P xs")
  case Nil
  then show ?thesis by (simp del: dropWhile_eq_Nil_conv)
next
  case (Cons y ys)
  with hd_dropWhile[of P xs] have "\<not> P y" by simp
  with Cons show ?thesis by simp
qed

lemma keyword_Nil_iff: "keyword cmd = [] \<longleftrightarrow> sscanf_cmd cmd = ScanEOF"
  unfolding keyword_def sscanf_EOF_iff takeWhile_not_dropWhile_Nil by auto

lemma sscanf_Scan2D:
  assumes "sscanf_cmd cmd = Scan2 c a"
  shows "a \<noteq> []" and "length a \<le> 1023" and "NUL \<notin> set a" and "LF \<notin> set a"
proof -
  define s1 where "s1 = dropWhile isspace (c_str cmd)"
  define k where "k = take 63 (takeWhile (\<lambda>c. \<not> isspace c) s1)"
  define s2 where "s2 = dropWhile isspace (drop (length k) s1)"
  define t where "t = take 1023 (takeWhile (\<lambda>c. c \<noteq> LF) s2)"
  have sc: "sscanf_cmd cmd =
      (if s1 = [] then ScanEOF else if t = [] then Scan1 k else Scan2 k t)"
    unfolding sscanf_cmd_def Let_def s1_def k_def s2_def t_def ..
  have s1: "s1 \<noteq> []"
  proof
    assume "s1 = []"
    with assms show False unfolding sc by simp
  qed
  have t: "t \<noteq> []"
  proof
    assume "t = []"
    with assms s1 show False unfolding sc by simp
  qed
  from s1 t have "sscanf_cmd cmd = Scan2 k t" unfolding sc by simp
  with assms have at: "a = t" by simp
  with t have ne: "a \<noteq> []" by simp
  from at have a: "a = take 1023 (takeWhile (\<lambda>c. c \<noteq> LF) s2)"
    unfolding t_def .
  show "a \<noteq> []" by (rule ne)
  show "length a \<le> 1023" by (simp add: a)
  have sub: "x \<in> set (c_str cmd)" if "x \<in> set a" for x
  proof -
    from that have "x \<in> set (takeWhile (\<lambda>c. c \<noteq> LF) s2)"
      unfolding a by (rule in_set_takeD)
    then have "x \<in> set s2" by (rule set_takeWhileD[THEN conjunct1])
    then have "x \<in> set (drop (length k) s1)" unfolding s2_def by (rule set_dropWhileD)
    then have "x \<in> set s1" by (rule in_set_dropD)
    then show ?thesis unfolding s1_def by (rule set_dropWhileD)
  qed
  show "NUL \<notin> set a" using sub c_str_no_NUL[of cmd] by blast
  show "LF \<notin> set a"
  proof
    assume "LF \<in> set a"
    then have "LF \<in> set (takeWhile (\<lambda>c. c \<noteq> LF) s2)" unfolding a by (rule in_set_takeD)
    then have "LF \<noteq> LF" by (rule set_takeWhileD[THEN conjunct2])
    then show False by simp
  qed
qed

lemma sscanf_Scan1_command: "sscanf_cmd cmd = Scan1 c \<Longrightarrow> c \<noteq> []"
  unfolding sscanf_cmd_def Let_def
  by (auto split: if_splits simp: takeWhile_not_dropWhile_Nil)

subsection \<open>The branches of the dispatcher\<close>

lemma hc_EOF:
  "sscanf_cmd cmd = ScanEOF \<Longrightarrow>
   handle_command d stale cmd = \<lparr>ret = - 1, sent = [msg_bad_format], dev = d\<rparr>"
  by (simp add: handle_command_def)

lemma hc_READ:
  assumes "sscanf_cmd cmd \<noteq> ScanEOF" and "command_of (sscanf_cmd cmd) = ''READ''"
  shows "handle_command d stale cmd =
    \<lparr>ret = 0,
     sent = [if buffer_size d = 0 then ''BUFFER_EMPTY''
             else snprintf (DEVICE_BUFFER_SIZE + 64)
                    (''DATA: '' @ take (buffer_size d) (c_str (buffer d)))],
     dev = d\<lparr>read_count := read_count d + 1\<rparr>\<rparr>"
  using assms by (simp add: handle_command_def conversions_less_1 Let_def)

lemma hc_DATA:
  assumes "sscanf_cmd cmd \<noteq> ScanEOF" and "command_of (sscanf_cmd cmd) = ''DATA''"
  shows "handle_command d stale cmd =
    (if access_level d = 0 then \<lparr>ret = 0, sent = [msg_read_only], dev = d\<rparr>
     else
       let argument = argument_of stale (sscanf_cmd cmd); len = data_len argument in
       \<lparr>ret = 0, sent = [snprintf 64 (''WRITTEN: '' @ dec len @ '' bytes'')],
        dev = d\<lparr>buffer := (take len argument @ drop len (buffer d))[len := NUL],
                buffer_size := len, write_count := write_count d + 1\<rparr>\<rparr>)"
  using assms by (simp add: handle_command_def conversions_less_1 Let_def data_len_def)

lemma hc_CLEAR:
  assumes "sscanf_cmd cmd \<noteq> ScanEOF" and "command_of (sscanf_cmd cmd) = ''CLEAR''"
  shows "handle_command d stale cmd =
    (if access_level d = 0 then \<lparr>ret = 0, sent = [msg_read_only], dev = d\<rparr>
     else \<lparr>ret = 0, sent = [''BUFFER_CLEARED''],
            dev = d\<lparr>buffer := (buffer d)[0 := NUL], buffer_size := 0,
                    read_pos := 0, write_pos := 0\<rparr>\<rparr>)"
  using assms by (simp add: handle_command_def conversions_less_1 Let_def)

lemma hc_STATUS:
  assumes "sscanf_cmd cmd \<noteq> ScanEOF" and "command_of (sscanf_cmd cmd) = ''STATUS''"
  shows "handle_command d stale cmd = \<lparr>ret = 0, sent = [status_line d], dev = d\<rparr>"
  using assms by (simp add: handle_command_def conversions_less_1 Let_def status_line_def)

lemma hc_SET_ACCESS:
  assumes "sscanf_cmd cmd \<noteq> ScanEOF" and "command_of (sscanf_cmd cmd) = ''SET_ACCESS''"
  shows "handle_command d stale cmd =
    (let argument = argument_of stale (sscanf_cmd cmd) in
     if c_str argument = ''read-only'' then
       \<lparr>ret = 0, sent = [''ACCESS_SET: read-only''], dev = d\<lparr>access_level := 0\<rparr>\<rparr>
     else if c_str argument = ''read-write'' then
       \<lparr>ret = 0, sent = [''ACCESS_SET: read-write''], dev = d\<lparr>access_level := 1\<rparr>\<rparr>
     else \<lparr>ret = 0, sent = [msg_bad_access], dev = d\<rparr>)"
  using assms by (simp add: handle_command_def conversions_less_1 Let_def)

lemma hc_HELP:
  assumes "sscanf_cmd cmd \<noteq> ScanEOF" and "command_of (sscanf_cmd cmd) = ''HELP''"
  shows "handle_command d stale cmd = \<lparr>ret = 0, sent = [msg_help], dev = d\<rparr>"
  using assms by (simp add: handle_command_def conversions_less_1 Let_def)

lemma hc_unknown:
  assumes "sscanf_cmd cmd \<noteq> ScanEOF" and "command_of (sscanf_cmd cmd) \<notin> set vocabulary"
  shows "handle_command d stale cmd = \<lparr>ret = 0, sent = [msg_unknown], dev = d\<rparr>"
  using assms by (simp add: handle_command_def conversions_less_1 Let_def vocabulary_def)

lemma known_cases:
  assumes "c \<in> set vocabulary"
  obtains "c = ''READ''" | "c = ''DATA''" | "c = ''CLEAR''" | "c = ''STATUS''"
    | "c = ''SET_ACCESS''" | "c = ''HELP''"
proof -
  from assms have "c = ''READ'' \<or> c = ''DATA'' \<or> c = ''CLEAR'' \<or> c = ''STATUS''
      \<or> c = ''SET_ACCESS'' \<or> c = ''HELP''"
    by (simp add: vocabulary_def)
  then show thesis
    apply (elim disjE)
         apply (rule that(1), assumption)
        apply (rule that(2), assumption)
       apply (rule that(3), assumption)
      apply (rule that(4), assumption)
     apply (rule that(5), assumption)
    apply (rule that(6), assumption)
    done
qed

text \<open>Every line falls into exactly one of the eight branches.\<close>

lemma hc_cases:
  obtains (eof) "sscanf_cmd cmd = ScanEOF"
  | (known) "sscanf_cmd cmd \<noteq> ScanEOF" "command_of (sscanf_cmd cmd) \<in> set vocabulary"
  | (unknown) "sscanf_cmd cmd \<noteq> ScanEOF" "command_of (sscanf_cmd cmd) \<notin> set vocabulary"
  by blast

lemma handle_command_sends_once: "length (sent (handle_command d stale cmd)) = 1"
proof (cases cmd rule: hc_cases)
  case eof
  then show ?thesis by (simp add: hc_EOF)
next
  case unknown
  then show ?thesis by (simp add: hc_unknown)
next
  case known
  from known(2) show ?thesis
  proof (cases rule: known_cases)
    case 1
    with known(1) show ?thesis by (simp add: hc_READ)
  next
    case 2
    with known(1) show ?thesis by (simp add: hc_DATA Let_def)
  next
    case 3
    with known(1) show ?thesis by (simp add: hc_CLEAR)
  next
    case 4
    with known(1) show ?thesis by (simp add: hc_STATUS)
  next
    case 5
    with known(1) show ?thesis by (simp add: hc_SET_ACCESS Let_def)
  next
    case 6
    with known(1) show ?thesis by (simp add: hc_HELP)
  qed
qed

subsection \<open>What every command maintains\<close>

lemma data_len_le: "data_len argument \<le> DEVICE_BUFFER_SIZE - 1"
  by (simp add: data_len_def DEVICE_BUFFER_SIZE_def)

lemma data_len_le_strlen: "data_len argument \<le> strlen argument"
  by (simp add: data_len_def DEVICE_BUFFER_SIZE_def)

lemma take_strlen_no_NUL: "n \<le> strlen xs \<Longrightarrow> NUL \<notin> set (take n xs)"
proof (induction xs arbitrary: n)
  case Nil
  then show ?case by simp
next
  case (Cons x xs)
  show ?case
  proof (cases n)
    case 0
    then show ?thesis by simp
  next
    case (Suc m)
    with Cons.prems have "x \<noteq> NUL" and "m \<le> strlen xs"
      by (auto simp: strlen_def c_str_def split: if_splits)
    with Cons.IH[of m] Suc show ?thesis by simp
  qed
qed

lemma dev_inv_DATA:
  assumes "length (buffer d) = DEVICE_BUFFER_SIZE"
  shows "dev_inv (d\<lparr>buffer := (take (data_len a) a @ drop (data_len a) (buffer d))[data_len a := NUL],
                buffer_size := data_len a, write_count := w\<rparr>)"
proof -
  define n where "n = data_len a"
  define b where "b = (take n a @ drop n (buffer d))[n := NUL]"
  have n: "n \<le> DEVICE_BUFFER_SIZE - 1" unfolding n_def by (rule data_len_le)
  have "n \<le> strlen a" unfolding n_def by (rule data_len_le_strlen)
  then have la: "n \<le> length a" using strlen_le by (rule order_trans)
  have nn: "NUL \<notin> set (take n a)"
    unfolding n_def by (rule take_strlen_no_NUL[OF data_len_le_strlen])
  have len: "length b = DEVICE_BUFFER_SIZE"
    unfolding b_def using assms n la by (simp add: DEVICE_BUFFER_SIZE_def)
  have at: "b ! n = NUL"
    using len n unfolding b_def by (simp add: DEVICE_BUFFER_SIZE_def)
  have "take n b = take n a"
    unfolding b_def using la by simp
  with nn have pre: "NUL \<notin> set (take n b)" by simp
  have "dev_inv (d\<lparr>buffer := b, buffer_size := n, write_count := w\<rparr>)"
    using len at pre n by (simp add: dev_inv_def)
  then show ?thesis unfolding b_def n_def .
qed

lemma dev_inv_CLEAR:
  assumes "length (buffer d) = DEVICE_BUFFER_SIZE"
  shows "dev_inv (d\<lparr>buffer := (buffer d)[0 := NUL], buffer_size := 0, read_pos := 0, write_pos := 0\<rparr>)"
  using assms by (simp add: dev_inv_def DEVICE_BUFFER_SIZE_def)

lemma dev_inv_step: "dev_inv d \<Longrightarrow> dev_inv (dev (handle_command d stale cmd))"
proof (cases cmd rule: hc_cases)
  case eof
  assume "dev_inv d" with eof show ?thesis by (simp add: hc_EOF)
next
  case unknown
  assume "dev_inv d" with unknown show ?thesis by (simp add: hc_unknown)
next
  case known
  assume inv: "dev_inv d"
  then have len: "length (buffer d) = DEVICE_BUFFER_SIZE" by (simp add: dev_inv_def)
  from known(2) show ?thesis
  proof (cases rule: known_cases)
    case 1
    with known(1) inv show ?thesis by (simp add: hc_READ dev_inv_def)
  next
    case 2
    with known(1) inv show ?thesis by (simp add: hc_DATA Let_def dev_inv_DATA[OF len])
  next
    case 3
    with known(1) inv show ?thesis by (simp add: hc_CLEAR dev_inv_CLEAR[OF len])
  next
    case 4
    with known(1) inv show ?thesis by (simp add: hc_STATUS)
  next
    case 5
    with known(1) inv show ?thesis by (simp add: hc_SET_ACCESS Let_def dev_inv_def)
  next
    case 6
    with known(1) inv show ?thesis by (simp add: hc_HELP)
  qed
qed

lemma welcome_no_NUL: "NUL \<notin> set welcome_text"
  by (simp add: welcome_text_def NUL_def)

lemma length_welcome: "length welcome_text = 69"
  by (simp add: welcome_text_def)

lemma device_init_eq:
  "device_init = \<lparr>buffer = welcome_text @ replicate (DEVICE_BUFFER_SIZE - 69) NUL, buffer_size = 69,
     read_pos = 0, write_pos = 0, access_level = 1, read_count = 0, write_count = 0\<rparr>"
proof -
  have "c_str welcome_text = welcome_text" by (rule c_str_id[OF welcome_no_NUL])
  moreover have "c_str (welcome_text @ NUL # xs) = welcome_text" for xs
    by (rule c_str_append_NUL[OF welcome_no_NUL])
  moreover have "NUL # replicate (DEVICE_BUFFER_SIZE - 70) NUL = replicate (DEVICE_BUFFER_SIZE - 69) NUL"
    by (simp add: DEVICE_BUFFER_SIZE_def flip: replicate_Suc)
  ultimately show ?thesis
    by (simp add: device_init_def device_zero_def strcpy_def strlen_def length_welcome Let_def)
qed

lemma dev_inv_init: "dev_inv device_init"
  by (simp add: device_init_eq dev_inv_def length_welcome welcome_no_NUL nth_append
      DEVICE_BUFFER_SIZE_def)

lemma reachable_dev_inv: "reachable d \<Longrightarrow> dev_inv d"
  by (induction rule: reachable.induct) (simp_all add: dev_inv_init dev_inv_step)

subsection \<open>Keywords\<close>

lemma vocabulary_short: "v \<in> set vocabulary \<Longrightarrow> length v < 63"
  by (auto simp: vocabulary_def)

lemma take_63_vocabulary:
  assumes "take 63 k \<in> set vocabulary"
  shows "take 63 k = k"
proof -
  from assms have "length (take 63 k) < 63" by (rule vocabulary_short)
  then have "length k < 63" by (simp add: min_def split: if_splits)
  then show ?thesis by simp
qed

lemma keyword_known:
  assumes "keyword cmd = k" and "k \<in> set vocabulary"
  shows "sscanf_cmd cmd \<noteq> ScanEOF" and "command_of (sscanf_cmd cmd) = k"
proof -
  from assms have "keyword cmd \<noteq> []" by (auto simp: vocabulary_def)
  then show ne: "sscanf_cmd cmd \<noteq> ScanEOF" by (simp add: keyword_Nil_iff)
  from assms have "length k < 63" by (simp add: vocabulary_short)
  with assms(1) show "command_of (sscanf_cmd cmd) = k"
    by (simp add: command_of_keyword[OF ne])
qed

lemma keyword_unknown:
  assumes "keyword cmd \<noteq> []" and "keyword cmd \<notin> set vocabulary"
  shows "sscanf_cmd cmd \<noteq> ScanEOF" and "command_of (sscanf_cmd cmd) \<notin> set vocabulary"
proof -
  from assms(1) show ne: "sscanf_cmd cmd \<noteq> ScanEOF" by (simp add: keyword_Nil_iff)
  show "command_of (sscanf_cmd cmd) \<notin> set vocabulary"
  proof
    assume "command_of (sscanf_cmd cmd) \<in> set vocabulary"
    then have v: "take 63 (keyword cmd) \<in> set vocabulary" by (simp add: command_of_keyword[OF ne])
    with take_63_vocabulary[OF v] assms(2) show False by simp
  qed
qed

lemmas kw_READ = keyword_known[where k = "''READ''", simplified vocabulary_def, simplified]

lemmas kw_DATA = keyword_known[where k = "''DATA''", simplified vocabulary_def, simplified]

lemmas kw_CLEAR = keyword_known[where k = "''CLEAR''", simplified vocabulary_def, simplified]

lemmas kw_STATUS = keyword_known[where k = "''STATUS''", simplified vocabulary_def, simplified]

lemmas kw_SET_ACCESS = keyword_known[where k = "''SET_ACCESS''", simplified vocabulary_def, simplified]

lemma Scan2_keyword:
  assumes "sscanf_cmd cmd = Scan2 k a" and "k \<in> set vocabulary"
  shows "keyword cmd = k"
proof -
  from assms(1) have ne: "sscanf_cmd cmd \<noteq> ScanEOF" by simp
  from command_of_keyword[OF ne] assms(1) have t: "take 63 (keyword cmd) = k" by simp
  with assms(2) take_63_vocabulary[of "keyword cmd"] show ?thesis by simp
qed

subsection \<open>Reading, writing and clearing the buffer\<close>

lemma snprintf_fits: "length s < n \<Longrightarrow> snprintf n s = s"
  by (simp add: snprintf_def)

lemma dev_inv_c_str: "dev_inv d \<Longrightarrow> c_str (buffer d) = take (buffer_size d) (buffer d)"
proof -
  assume inv: "dev_inv d"
  let ?n = "buffer_size d"
  from inv have n: "?n < length (buffer d)" and at: "buffer d ! ?n = NUL"
    and pre: "NUL \<notin> set (take ?n (buffer d))"
    by (simp_all add: dev_inv_def DEVICE_BUFFER_SIZE_def)
  have "buffer d = take ?n (buffer d) @ NUL # drop (Suc ?n) (buffer d)"
    using n at by (metis id_take_nth_drop)
  then have "c_str (buffer d) = c_str (take ?n (buffer d) @ NUL # drop (Suc ?n) (buffer d))"
    by simp
  also have "\<dots> = take ?n (buffer d)" by (rule c_str_append_NUL[OF pre])
  finally show ?thesis .
qed

lemma c_str_clear: "c_str (xs[0 := NUL]) = []"
  by (cases xs) (simp_all add: c_str_def)

lemma c_str_argument_of: "sscanf_cmd cmd = Scan2 c a \<Longrightarrow> c_str (argument_of stale (sscanf_cmd cmd)) = a"
  by (simp add: c_str_append_NUL sscanf_Scan2D(3))

subsection \<open>The access level along a run\<close>

lemma set_read_only_level:
  assumes "sent (handle_command d stale cmd) = [''ACCESS_SET: read-only'']"
  shows "access_level (dev (handle_command d stale cmd)) = 0"
proof (cases cmd rule: hc_cases)
  case eof
  with assms show ?thesis by (simp add: hc_EOF msg_bad_format_def)
next
  case unknown
  with assms show ?thesis by (simp add: hc_unknown msg_unknown_def)
next
  case known
  from known(2) show ?thesis
  proof (cases rule: known_cases)
    case 1
    with known(1) assms show ?thesis
      by (simp add: hc_READ snprintf_def DEVICE_BUFFER_SIZE_def split: if_splits)
  next
    case 2
    with known(1) assms show ?thesis
      by (simp add: hc_DATA Let_def snprintf_def msg_read_only_def split: if_splits)
  next
    case 3
    with known(1) assms show ?thesis by (simp add: hc_CLEAR msg_read_only_def split: if_splits)
  next
    case 4
    with known(1) assms show ?thesis by (simp add: hc_STATUS status_line_def snprintf_def)
  next
    case 5
    with known(1) assms show ?thesis
      by (simp add: hc_SET_ACCESS Let_def msg_bad_access_def split: if_splits)
  next
    case 6
    with known(1) assms show ?thesis by (simp add: hc_HELP msg_help_def)
  qed
qed

lemma read_only_kept:
  assumes "access_level d = 0"
    and "sent (handle_command d stale cmd) \<noteq> [''ACCESS_SET: read-write'']"
  shows "access_level (dev (handle_command d stale cmd)) = 0"
proof (cases cmd rule: hc_cases)
  case eof
  with assms show ?thesis by (simp add: hc_EOF)
next
  case unknown
  with assms show ?thesis by (simp add: hc_unknown)
next
  case known
  from known(2) show ?thesis
  proof (cases rule: known_cases)
    case 1
    with known(1) assms show ?thesis by (simp add: hc_READ)
  next
    case 2
    with known(1) assms show ?thesis by (simp add: hc_DATA)
  next
    case 3
    with known(1) assms show ?thesis by (simp add: hc_CLEAR)
  next
    case 4
    with known(1) assms show ?thesis by (simp add: hc_STATUS)
  next
    case 5
    with known(1) assms show ?thesis by (simp add: hc_SET_ACCESS Let_def split: if_splits)
  next
    case 6
    with known(1) assms show ?thesis by (simp add: hc_HELP)
  qed
qed

lemma read_only_final:
  "access_level d = 0 \<Longrightarrow> \<forall>r \<in> set (run d cmds). sent r \<noteq> [''ACCESS_SET: read-write''] \<Longrightarrow>
   access_level (final d cmds) = 0"
proof (induction cmds arbitrary: d)
  case Nil
  then show ?case by simp
next
  case (Cons x xs)
  let ?r = "handle_command d (fst x) (snd x)"
  from Cons.prems(2) have now: "sent ?r \<noteq> [''ACCESS_SET: read-write'']"
    and rest: "\<forall>r \<in> set (run (dev ?r) xs). sent r \<noteq> [''ACCESS_SET: read-write'']"
    by (simp_all add: Let_def)
  from read_only_kept[OF Cons.prems(1) now] have "access_level (dev ?r) = 0" .
  from Cons.IH[OF this rest] show ?case by simp
qed

lemma rejected_when_read_only:
  assumes "access_level d = 0" and "keyword cmd = ''DATA'' \<or> keyword cmd = ''CLEAR''"
  shows "handle_command d stale cmd = \<lparr>ret = 0, sent = [msg_read_only], dev = d\<rparr>"
  using assms by (auto simp: hc_DATA[OF kw_DATA] hc_CLEAR[OF kw_CLEAR])

text \<open>
  As long as no response is \<^verbatim>\<open>ACCESS_SET: read-write\<close>, a device that is read-only stays so, and
  DATA and CLEAR are rejected without any change.
\<close>

lemma gate_holds_until_read_write_response:
  assumes "sent (handle_command d0 stale0 cmd0) = [''ACCESS_SET: read-only'']"
    and "\<forall>r \<in> set (run (dev (handle_command d0 stale0 cmd0)) cmds).
           sent r \<noteq> [''ACCESS_SET: read-write'']"
    and "keyword cmd = ''DATA'' \<or> keyword cmd = ''CLEAR''"
  shows "handle_command (final (dev (handle_command d0 stale0 cmd0)) cmds) stale cmd =
     \<lparr>ret = 0, sent = [msg_read_only], dev = final (dev (handle_command d0 stale0 cmd0)) cmds\<rparr>"
proof -
  have "access_level (dev (handle_command d0 stale0 cmd0)) = 0"
    using assms(1) by (rule set_read_only_level)
  then have "access_level (final (dev (handle_command d0 stale0 cmd0)) cmds) = 0"
    using assms(2) by (rule read_only_final)
  then show ?thesis using assms(3) by (rule rejected_when_read_only)
qed

text \<open>READ does not look at the access level.\<close>

lemma read_ignores_access_level:
  assumes "keyword cmd = ''READ''"
  shows "ret (handle_command (e\<lparr>access_level := a\<rparr>) stale cmd) = ret (handle_command e stale cmd)"
    and "sent (handle_command (e\<lparr>access_level := a\<rparr>) stale cmd) = sent (handle_command e stale cmd)"
    and "dev (handle_command (e\<lparr>access_level := a\<rparr>) stale cmd) =
          (dev (handle_command e stale cmd))\<lparr>access_level := a\<rparr>"
  by (simp_all add: hc_READ[OF kw_READ[OF assms]])

subsection \<open>Line ends\<close>

lemma client_thread_buf_Some:
  assumes "2 \<le> length msg"
  shows "\<exists>b. client_thread_buf msg = Some b \<and> length b = Suc (length msg) \<and>
    (\<forall>i < length msg. i \<noteq> length msg - 2 \<longrightarrow> msg ! i = CR \<longrightarrow> b ! i = CR) \<and>
    (msg ! (length msg - 2) = CR \<longrightarrow> b ! (length msg - 2) = NUL) \<and>
    (\<forall>i < length msg - 2. b ! i = msg ! i)"
proof -
  define n where "n = length msg"
  define buf1 where "buf1 = (if (msg @ [NUL]) ! (n - 1) = LF then (msg @ [NUL])[n - 1 := NUL] else msg @ [NUL])"
  define buf2 where "buf2 = (if buf1 ! (n - 2) = CR then buf1[n - 2 := NUL] else buf1)"
  have n: "2 \<le> n" using assms by (simp add: n_def)
  then have n1: "n - 1 < n" by simp
  have eq: "client_thread_buf msg = Some buf2"
    using n by (simp add: client_thread_buf_def Let_def buf2_def buf1_def n_def)
  have l1: "length buf1 = Suc n" by (simp add: buf1_def n_def)
  have l2: "length buf2 = Suc n" by (simp add: buf2_def l1)
  have b1: "buf1 ! i = msg ! i" if "i < n" "i \<noteq> n - 1" for i
    using that by (simp add: buf1_def n_def nth_append)
  have "(msg @ [NUL]) ! (n - 1) = msg ! (n - 1)"
    using n1 by (simp add: nth_append n_def)
  then have b1': "buf1 ! (n - 1) = CR" if "msg ! (n - 1) = CR"
    using that by (simp add: buf1_def CR_def LF_def)
  have b2: "buf2 ! i = buf1 ! i" if "i \<noteq> n - 2" for i
    using that by (simp add: buf2_def)
  have p1: "buf2 ! i = CR" if "i < n" "i \<noteq> n - 2" "msg ! i = CR" for i
  proof (cases "i = n - 1")
    case True
    with that b1' b2 show ?thesis by simp
  next
    case False
    with that b1 b2 show ?thesis by simp
  qed
  have "buf1 ! (n - 2) = msg ! (n - 2)" using n by (intro b1) auto
  then have p2: "buf2 ! (n - 2) = NUL" if "msg ! (n - 2) = CR"
    using that n l1 by (simp add: buf2_def)
  have p3: "buf2 ! i = msg ! i" if "i < n - 2" for i
    using that b1[of i] b2[of i] by simp
  from eq l2 p1 p2 p3 show ?thesis unfolding n_def by blast
qed

lemma c_str_stop: "c_str (xs @ NUL # ys) = c_str xs"
  unfolding c_str_def by (induction xs) auto

lemma c_str_cut:
  assumes "n < length b" and "b ! n = NUL" and "\<forall>i < n. b ! i = m ! i" and "n \<le> length m"
  shows "c_str b = c_str (take n m)"
proof -
  have "take n b = take n m"
    using assms by (intro nth_take_lemma) auto
  moreover have "b = take n b @ NUL # drop (Suc n) b"
    using assms(1,2) by (metis id_take_nth_drop)
  ultimately have "b = take n m @ NUL # drop (Suc n) b" by simp
  then have "c_str b = c_str (take n m @ NUL # drop (Suc n) b)" by simp
  then show ?thesis by (simp only: c_str_stop)
qed

subsection \<open>Concrete lines\<close>

lemmas scan_eval = sscanf_cmd_def c_str_def isspace_def NUL_def LF_def CR_def Let_def

lemma scan_examples:
  "sscanf_cmd ''DATA'' = Scan1 ''DATA''"
  "sscanf_cmd ''DATA hi'' = Scan2 ''DATA'' ''hi''"
  "sscanf_cmd ''SET_ACCESS'' = Scan1 ''SET_ACCESS''"
  "sscanf_cmd ''SET_ACCESS read-only'' = Scan2 ''SET_ACCESS'' ''read-only''"
  "sscanf_cmd ''SET_ACCESS bogus'' = Scan2 ''SET_ACCESS'' ''bogus''"
  "sscanf_cmd ''READ'' = Scan1 ''READ''"
  "sscanf_cmd ''CLEAR'' = Scan1 ''CLEAR''"
  "sscanf_cmd ''FOO'' = Scan1 ''FOO''"
  "sscanf_cmd ''FOO read-write'' = Scan2 ''FOO'' ''read-write''"
  "sscanf_cmd [] = ScanEOF"
  "sscanf_cmd ''X'' = Scan1 ''X''"
  by (simp_all add: scan_eval)

lemma keyword_examples:
  "keyword ''DATA hi'' = ''DATA''"
  "keyword ''READ'' = ''READ''"
  "keyword ''CLEAR'' = ''CLEAR''"
  "keyword ''FOO'' = ''FOO''"
  "keyword [] = []"
  by (simp_all add: keyword_def scan_eval)

lemma c_str_replicate: "NUL \<notin> set xs \<Longrightarrow> c_str (xs @ replicate n NUL) = xs"
  by (cases n) (simp_all add: c_str_id c_str_append_NUL)

lemma c_str_written:
  assumes "n \<le> length a" and "n < length b" and "NUL \<notin> set (take n a)"
  shows "c_str ((take n a @ drop n b)[n := NUL]) = take n a"
proof -
  have d: "drop n b = b ! n # drop (Suc n) b"
    using assms(2) by (simp add: Cons_nth_drop_Suc)
  have "(take n a @ drop n b)[n := NUL] = take n a @ (drop n b)[0 := NUL]"
    using assms(1) by (simp add: list_update_append)
  also have "\<dots> = take n a @ NUL # drop (Suc n) b"
    unfolding d by simp
  finally have "(take n a @ drop n b)[n := NUL] = take n a @ NUL # drop (Suc n) b" .
  then show ?thesis by (simp only: c_str_append_NUL[OF assms(3)])
qed

lemma length_dec: "n < 10000 \<Longrightarrow> length (dec n) \<le> 4"
  by (simp add: dec.simps[of n] dec.simps[of "n div 10"] dec.simps[of "n div 100"]
      dec.simps[of "n div 1000"] div_mult2_eq[symmetric])

text \<open>A DATA command whose line carries an argument stores that argument.\<close>

lemma data_command_with_argument:
  assumes "sscanf_cmd cmd = Scan2 ''DATA'' a" and "access_level d \<noteq> 0"
    and "length (buffer d) = DEVICE_BUFFER_SIZE"
  shows "sent (handle_command d stale cmd) = [''WRITTEN: '' @ dec (length a) @ '' bytes'']"
    and "buffer_size (dev (handle_command d stale cmd)) = length a"
    and "c_str (buffer (dev (handle_command d stale cmd))) = a"
    and "write_count (dev (handle_command d stale cmd)) = write_count d + 1"
    and "length a \<le> DEVICE_BUFFER_SIZE - 1"
proof -
  define arg where "arg = argument_of stale (sscanf_cmd cmd)"
  from assms(1) have ne: "sscanf_cmd cmd \<noteq> ScanEOF"
    and co: "command_of (sscanf_cmd cmd) = ''DATA''" by simp_all
  have la: "length a \<le> 1023" and nn: "NUL \<notin> set a"
    using sscanf_Scan2D[OF assms(1)] by simp_all
  have cs: "c_str arg = a" unfolding arg_def by (rule c_str_argument_of[OF assms(1)])
  then have dl: "data_len arg = length a"
    using la by (simp add: data_len_def strlen_def DEVICE_BUFFER_SIZE_def)
  have ta: "take (length a) arg = a"
    unfolding arg_def by (simp add: assms(1))
  have r: "handle_command d stale cmd =
      \<lparr>ret = 0, sent = [snprintf 64 (''WRITTEN: '' @ dec (length a) @ '' bytes'')],
       dev = d\<lparr>buffer := (take (length a) arg @ drop (length a) (buffer d))[length a := NUL],
               buffer_size := length a, write_count := write_count d + 1\<rparr>\<rparr>"
    using assms(2) by (simp add: hc_DATA[OF ne co] Let_def dl flip: arg_def)
  have "length (dec (length a)) \<le> 4" using la by (intro length_dec) simp
  then have "snprintf 64 (''WRITTEN: '' @ dec (length a) @ '' bytes'')
      = ''WRITTEN: '' @ dec (length a) @ '' bytes''"
    by (intro snprintf_fits) simp
  then show "sent (handle_command d stale cmd) = [''WRITTEN: '' @ dec (length a) @ '' bytes'']"
    by (simp add: r)
  show "buffer_size (dev (handle_command d stale cmd)) = length a" by (simp add: r)
  show "write_count (dev (handle_command d stale cmd)) = write_count d + 1" by (simp add: r)
  show "length a \<le> DEVICE_BUFFER_SIZE - 1" using la by (simp add: DEVICE_BUFFER_SIZE_def)
  have "length a \<le> length arg" unfolding arg_def by (simp add: assms(1))
  moreover have "length a < length (buffer d)"
    using la assms(3) by (simp add: DEVICE_BUFFER_SIZE_def)
  moreover have "NUL \<notin> set (take (length a) arg)" unfolding ta by (rule nn)
  ultimately have "c_str ((take (length a) arg @ drop (length a) (buffer d))[length a := NUL])
      = take (length a) arg"
    by (rule c_str_written)
  then show "c_str (buffer (dev (handle_command d stale cmd))) = a"
    by (simp add: r ta del: list_update.simps)
qed

text \<open>
  A SET_ACCESS command whose line carries no argument compares what the stack holds:
  left-over bytes that spell a mode change the access level.
\<close>

lemma set_access_without_argument:
  "handle_command d (''read-write'' @ replicate 1014 NUL) ''SET_ACCESS'' =
     \<lparr>ret = 0, sent = [''ACCESS_SET: read-write''], dev = d\<lparr>access_level := 1\<rparr>\<rparr>"
proof -
  have sc: "sscanf_cmd ''SET_ACCESS'' = Scan1 ''SET_ACCESS''" by (rule scan_examples)
  have ne: "sscanf_cmd ''SET_ACCESS'' \<noteq> ScanEOF"
    and co: "command_of (sscanf_cmd ''SET_ACCESS'') = ''SET_ACCESS''"
    by (simp_all add: sc)
  have "c_str (''read-write'' @ replicate 1014 NUL) = ''read-write''"
    by (rule c_str_replicate) (simp add: NUL_def)
  then show ?thesis
    by (simp add: hc_SET_ACCESS[OF ne co] sc Let_def del: append.simps)
qed

lemma init_facts:
  "buffer_size device_init = 69" "access_level device_init = 1"
  "read_count device_init = 0" "write_count device_init = 0"
  "c_str (buffer device_init) = welcome_text"
  by (simp_all add: device_init_eq c_str_replicate welcome_no_NUL)

lemma take_welcome: "take 69 (buffer device_init) = welcome_text"
  by (simp add: device_init_eq length_welcome)

section \<open>The claims\<close>

text \<open>
  Claim C1 (access gating: after a successful \<^verbatim>\<open>SET_ACCESS read-only\<close>, DATA and CLEAR are
  rejected until a \<^verbatim>\<open>SET_ACCESS read-write\<close> command succeeds). While the access level is 0
  the gate itself holds: \<open>gate_holds_until_read_write_response\<close>. The level can return to 1
  without any \<^verbatim>\<open>SET_ACCESS read-write\<close> line, though. On one stack, the lines
  \<^verbatim>\<open>SET_ACCESS read-only\<close>, \<^verbatim>\<open>FOO read-write\<close>, \<^verbatim>\<open>SET_ACCESS\<close> and \<^verbatim>\<open>DATA hi\<close> run as follows:
  the unknown command leaves \<^verbatim>\<open>read-write\<close> in \<^verbatim>\<open>argument\<close>, the line \<^verbatim>\<open>SET_ACCESS\<close>
  without argument compares those left-over bytes and sets the level to 1, and the DATA
  command is accepted and stores its two bytes.
\<close>

theorem gate_lifted_without_read_write_command:
  "map sscanf_cmd [''SET_ACCESS read-only'', ''FOO read-write'', ''SET_ACCESS'', ''DATA hi'']
     = [Scan2 ''SET_ACCESS'' ''read-only'', Scan2 ''FOO'' ''read-write'', Scan1 ''SET_ACCESS'',
        Scan2 ''DATA'' ''hi''] \<and>
   map sent (run device_init
     [(fresh_stack, ''SET_ACCESS read-only''),
      (argument_after fresh_stack ''SET_ACCESS read-only'', ''FOO read-write''),
      (argument_after (argument_after fresh_stack ''SET_ACCESS read-only'') ''FOO read-write'',
       ''SET_ACCESS''),
      (argument_after (argument_after fresh_stack ''SET_ACCESS read-only'') ''FOO read-write'',
       ''DATA hi'')])
     = [[''ACCESS_SET: read-only''], [msg_unknown], [''ACCESS_SET: read-write''],
        [''WRITTEN: 2 bytes'']] \<and>
   buffer_size (final device_init
     [(fresh_stack, ''SET_ACCESS read-only''),
      (argument_after fresh_stack ''SET_ACCESS read-only'', ''FOO read-write''),
      (argument_after (argument_after fresh_stack ''SET_ACCESS read-only'') ''FOO read-write'',
       ''SET_ACCESS''),
      (argument_after (argument_after fresh_stack ''SET_ACCESS read-only'') ''FOO read-write'',
       ''DATA hi'')]) = 2"
proof -
  define a1 where "a1 = argument_after fresh_stack ''SET_ACCESS read-only''"
  define a2 where "a2 = argument_after a1 ''FOO read-write''"
  define d1 where "d1 = device_init\<lparr>access_level := 0\<rparr>"
  define d3 where "d3 = d1\<lparr>access_level := 1\<rparr>"
  have s1: "sscanf_cmd ''SET_ACCESS read-only'' = Scan2 ''SET_ACCESS'' ''read-only''"
    and s2: "sscanf_cmd ''FOO read-write'' = Scan2 ''FOO'' ''read-write''"
    and s3: "sscanf_cmd ''SET_ACCESS'' = Scan1 ''SET_ACCESS''"
    and s4: "sscanf_cmd ''DATA hi'' = Scan2 ''DATA'' ''hi''"
    by (rule scan_examples)+
  have r1: "handle_command device_init fresh_stack ''SET_ACCESS read-only'' =
      \<lparr>ret = 0, sent = [''ACCESS_SET: read-only''], dev = d1\<rparr>"
    using hc_SET_ACCESS[of "''SET_ACCESS read-only''" device_init fresh_stack]
      c_str_argument_of[OF s1, of fresh_stack]
    by (simp add: s1 Let_def d1_def)
  have u: "sscanf_cmd ''FOO read-write'' \<noteq> ScanEOF"
    "command_of (sscanf_cmd ''FOO read-write'') \<notin> set vocabulary"
    by (simp_all add: s2 vocabulary_def)
  have r2: "handle_command d1 a1 ''FOO read-write'' = \<lparr>ret = 0, sent = [msg_unknown], dev = d1\<rparr>"
    by (rule hc_unknown[OF u])
  have c2: "c_str a2 = ''read-write''"
    unfolding a2_def argument_after_def by (rule c_str_argument_of[OF s2])
  have k3: "sscanf_cmd ''SET_ACCESS'' \<noteq> ScanEOF" "command_of (sscanf_cmd ''SET_ACCESS'') = ''SET_ACCESS''"
    by (simp_all add: s3)
  have r3: "handle_command d1 a2 ''SET_ACCESS'' =
      \<lparr>ret = 0, sent = [''ACCESS_SET: read-write''], dev = d3\<rparr>"
    by (simp add: hc_SET_ACCESS[OF k3] s3 c2 Let_def d3_def)
  have al: "access_level d3 \<noteq> 0" by (simp add: d3_def)
  have l: "length (buffer d3) = DEVICE_BUFFER_SIZE"
    using dev_inv_init by (simp add: dev_inv_def d3_def d1_def)
  have lh: "length ''hi'' = (2::nat)" by simp
  have d2: "dec (length ''hi'') = ''2''"
    unfolding lh by (simp add: dec.simps digit_def)
  have "sent (handle_command d3 a2 ''DATA hi'') = [''WRITTEN: '' @ dec (length ''hi'') @ '' bytes'']"
    by (rule data_command_with_argument(1)[OF s4 al l])
  then have r4s: "sent (handle_command d3 a2 ''DATA hi'') = [''WRITTEN: 2 bytes'']"
    by (simp only: d2) simp
  have r4n: "buffer_size (dev (handle_command d3 a2 ''DATA hi'')) = 2"
    using data_command_with_argument(2)[OF s4 al l, of a2] by simp
  have "map sent (run device_init
     [(fresh_stack, ''SET_ACCESS read-only''), (a1, ''FOO read-write''), (a2, ''SET_ACCESS''),
      (a2, ''DATA hi'')])
     = [[''ACCESS_SET: read-only''], [msg_unknown], [''ACCESS_SET: read-write''],
        [''WRITTEN: 2 bytes'']]"
    by (simp add: Let_def r1 r2 r3 r4s)
  moreover have "buffer_size (final device_init
     [(fresh_stack, ''SET_ACCESS read-only''), (a1, ''FOO read-write''), (a2, ''SET_ACCESS''),
      (a2, ''DATA hi'')]) = 2"
    by (simp add: r1 r2 r3 r4n)
  ultimately show ?thesis
    unfolding a2_def a1_def by (simp add: s1 s2 s3 s4)
qed

text \<open>
  Claim C2 (READ). In every state the server can reach, a line with keyword READ adds exactly 1
  to \<open>read_count\<close> (a 64-bit counter) and changes no other field, so \<open>buffer\<close> and
  \<open>buffer_size\<close> stay as they are. The response is \<^verbatim>\<open>BUFFER_EMPTY\<close> when \<open>buffer_size\<close> is 0, and
  otherwise \<^verbatim>\<open>DATA: \<close> followed by the first \<open>buffer_size\<close> bytes of the buffer, which are
  \<open>buffer_size\<close> many.
\<close>

theorem read_command:
  assumes "reachable d" and "keyword cmd = ''READ''"
  shows "dev (handle_command d stale cmd) = d\<lparr>read_count := read_count d + 1\<rparr> \<and>
         buffer (dev (handle_command d stale cmd)) = buffer d \<and>
         buffer_size (dev (handle_command d stale cmd)) = buffer_size d \<and>
         length (take (buffer_size d) (buffer d)) = buffer_size d \<and>
         sent (handle_command d stale cmd) =
           [if buffer_size d = 0 then ''BUFFER_EMPTY''
            else ''DATA: '' @ take (buffer_size d) (buffer d)]"
proof -
  from assms(1) have inv: "dev_inv d" by (rule reachable_dev_inv)
  then have n: "buffer_size d < 1024" and len: "length (buffer d) = 1024"
    by (simp_all add: dev_inv_def DEVICE_BUFFER_SIZE_def)
  have fits: "snprintf (DEVICE_BUFFER_SIZE + 64) (''DATA: '' @ take (buffer_size d) (buffer d))
      = ''DATA: '' @ take (buffer_size d) (buffer d)"
    using n by (intro snprintf_fits) (simp add: DEVICE_BUFFER_SIZE_def)
  show ?thesis
    using n len fits
    by (simp add: hc_READ[OF kw_READ[OF assms(2)]] dev_inv_c_str[OF inv])
qed

theorem read_command_witness:
  "keyword ''READ'' = ''READ'' \<and>
   sent (handle_command device_init fresh_stack ''READ'') = [''DATA: '' @ welcome_text] \<and>
   read_count (dev (handle_command device_init fresh_stack ''READ'')) = 1 \<and>
   buffer_size (dev (handle_command device_init fresh_stack ''READ'')) = 69"
proof -
  have r: "reachable device_init" by (rule reachable.init)
  have kw: "keyword ''READ'' = ''READ''" by (rule keyword_examples)
  from read_command[OF r kw, of fresh_stack] kw show ?thesis
    by (simp add: init_facts take_welcome)
qed

text \<open>
  Claim C3 (DATA stores its argument, whole or cut to 1023 bytes, and reports the stored
  length). For a line that carries an argument this is \<open>data_command_with_argument\<close>. It is
  not what happens for the line \<^verbatim>\<open>DATA\<close>, whose argument is empty: \<^verbatim>\<open>sscanf\<close> returns 1 and
  leaves \<^verbatim>\<open>argument\<close> unwritten, and the DATA branch stores what the array holds. With
  \<^verbatim>\<open>hello\<close> left in the array, the server answers \<^verbatim>\<open>WRITTEN: 5 bytes\<close> and the buffer holds
  \<^verbatim>\<open>hello\<close>, where the empty argument asks for 0 bytes.
\<close>

theorem data_without_argument_stores_stale:
  "sscanf_cmd ''DATA'' = Scan1 ''DATA'' \<and>
   sent (handle_command device_init (''hello'' @ replicate 1019 NUL) ''DATA'') = [''WRITTEN: 5 bytes''] \<and>
   buffer_size (dev (handle_command device_init (''hello'' @ replicate 1019 NUL) ''DATA'')) = 5 \<and>
   c_str (buffer (dev (handle_command device_init (''hello'' @ replicate 1019 NUL) ''DATA''))) = ''hello''"
proof -
  define st where "st = ''hello'' @ replicate 1019 NUL"
  have sc: "sscanf_cmd ''DATA'' = Scan1 ''DATA''" by (rule scan_examples)
  have ne: "sscanf_cmd ''DATA'' \<noteq> ScanEOF" and co: "command_of (sscanf_cmd ''DATA'') = ''DATA''"
    by (simp_all add: sc)
  have h: "NUL \<notin> set ''hello''" by (simp add: NUL_def)
  have "c_str st = ''hello''"
    unfolding st_def using h by (rule c_str_replicate)
  then have "strlen st = 5" by (simp add: strlen_def)
  then have dl: "data_len st = 5"
    by (simp add: data_len_def DEVICE_BUFFER_SIZE_def)
  have d5: "dec 5 = ''5''" by (simp add: dec.simps digit_def)
  have al: "access_level device_init \<noteq> 0" by (simp add: device_init_eq)
  have t5: "take 5 st = ''hello''" by (simp add: st_def)
  have lb: "5 < length (buffer device_init)"
    using dev_inv_init by (simp add: dev_inv_def DEVICE_BUFFER_SIZE_def)
  have "c_str ((take 5 st @ drop 5 (buffer device_init))[5 := NUL]) = take 5 st"
    using lb h by (intro c_str_written) (simp_all add: st_def)
  then have cs: "c_str ((take 5 st @ drop 5 (buffer device_init))[5 := NUL]) = ''hello''"
    by (simp only: t5)
  have r: "handle_command device_init st ''DATA'' =
      \<lparr>ret = 0, sent = [snprintf 64 (''WRITTEN: '' @ dec 5 @ '' bytes'')],
       dev = device_init\<lparr>buffer := (take 5 st @ drop 5 (buffer device_init))[5 := NUL],
               buffer_size := 5, write_count := write_count device_init + 1\<rparr>\<rparr>"
    using al by (simp add: hc_DATA[OF ne co] sc dl Let_def)
  have "sent (handle_command device_init st ''DATA'') = [''WRITTEN: 5 bytes'']"
    by (simp add: r d5 snprintf_def)
  moreover have "buffer_size (dev (handle_command device_init st ''DATA'')) = 5"
    by (simp add: r)
  moreover have "c_str (buffer (dev (handle_command device_init st ''DATA''))) = ''hello''"
    by (simp add: r cs del: list_update.simps)
  ultimately show ?thesis using sc unfolding st_def by blast
qed

text \<open>
  Claim C4 (every line gets exactly one response and no command ends the server). Every path
  of \<open>handle_command\<close> calls \<open>send_response\<close> exactly once: \<open>handle_command_sends_once\<close>.
  What that call does depends on the socket. When the client has closed its end,
  \<^verbatim>\<open>send\<close> raises \<^verbatim>\<open>SIGPIPE\<close>; \<open>install_signals\<close> has bound it to \<open>on_signal\<close> (under a
  comment that says the signal is to be ignored), and \<open>on_signal\<close> ends the process. For the
  line \<^verbatim>\<open>READ\<close> on such a socket the dispatcher passes its one response on, no byte goes out,
  and the server process exits with status 0.
\<close>

theorem sigpipe_ends_server:
  "sent (handle_command device_init fresh_stack ''READ'') = [''DATA: '' @ welcome_text] \<and>
   deliver PeerClosed (handle_command device_init fresh_stack ''READ'') = [([], Exited 0)]"
proof -
  have ne: "sscanf_cmd ''READ'' \<noteq> ScanEOF" and co: "command_of (sscanf_cmd ''READ'') = ''READ''"
    by (simp_all add: scan_examples)
  have cs: "c_str (buffer device_init) = welcome_text"
    by (simp add: device_init_eq c_str_replicate welcome_no_NUL)
  have bs: "buffer_size device_init = 69" by (simp add: device_init_eq)
  have s: "sent (handle_command device_init fresh_stack ''READ'') = [''DATA: '' @ welcome_text]"
    by (simp add: hc_READ[OF ne co] cs bs snprintf_def length_welcome DEVICE_BUFFER_SIZE_def)
  show ?thesis
    by (simp add: s deliver_def send_response_def install_signals_def on_signal_def)
qed

text \<open>
  Claim C5 (CLEAR). When the access level is not read-only, a line with keyword CLEAR is
  answered with \<^verbatim>\<open>BUFFER_CLEARED\<close>, sets \<open>buffer_size\<close> to 0 and makes the buffer hold the empty
  string; \<open>read_count\<close>, \<open>write_count\<close> and \<open>access_level\<close> keep their values.
\<close>

theorem clear_command:
  assumes "access_level d \<noteq> 0" and "keyword cmd = ''CLEAR''"
  shows "sent (handle_command d stale cmd) = [''BUFFER_CLEARED''] \<and>
         buffer_size (dev (handle_command d stale cmd)) = 0 \<and>
         c_str (buffer (dev (handle_command d stale cmd))) = [] \<and>
         read_count (dev (handle_command d stale cmd)) = read_count d \<and>
         write_count (dev (handle_command d stale cmd)) = write_count d \<and>
         access_level (dev (handle_command d stale cmd)) = access_level d"
  using assms(1) by (simp add: hc_CLEAR[OF kw_CLEAR[OF assms(2)]] c_str_clear)

theorem clear_command_witness:
  "access_level device_init \<noteq> 0 \<and> keyword ''CLEAR'' = ''CLEAR'' \<and>
   sent (handle_command device_init fresh_stack ''CLEAR'') = [''BUFFER_CLEARED''] \<and>
   buffer_size (dev (handle_command device_init fresh_stack ''CLEAR'')) = 0 \<and>
   c_str (buffer (dev (handle_command device_init fresh_stack ''CLEAR''))) = [] \<and>
   access_level (dev (handle_command device_init fresh_stack ''CLEAR'')) = 1"
proof -
  have a: "access_level device_init \<noteq> 0" by (simp add: init_facts)
  have kw: "keyword ''CLEAR'' = ''CLEAR''" by (rule keyword_examples)
  from clear_command[OF a kw, of fresh_stack] a kw show ?thesis by (simp add: init_facts)
qed

text \<open>
  Claim C6 (SET_ACCESS), for a line that carries an argument \<open>a\<close>. When \<open>a\<close> is
  \<^verbatim>\<open>read-only\<close> or \<^verbatim>\<open>read-write\<close>, the access level is set to 0 or 1 and the response is
  \<^verbatim>\<open>ACCESS_SET: \<close> followed by \<open>a\<close>. For any other \<open>a\<close> the device is unchanged in every field
  and the response is the text \<open>msg_bad_access\<close> of the source (its words are Russian, with
  \<^verbatim>\<open>(read-only/read-write)\<close> at the end).
\<close>

theorem set_access_command:
  assumes "sscanf_cmd cmd = Scan2 ''SET_ACCESS'' a"
  shows "handle_command d stale cmd =
    (if a = ''read-only'' then
       \<lparr>ret = 0, sent = [''ACCESS_SET: '' @ a], dev = d\<lparr>access_level := 0\<rparr>\<rparr>
     else if a = ''read-write'' then
       \<lparr>ret = 0, sent = [''ACCESS_SET: '' @ a], dev = d\<lparr>access_level := 1\<rparr>\<rparr>
     else \<lparr>ret = 0, sent = [msg_bad_access], dev = d\<rparr>)"
proof -
  from assms have "sscanf_cmd cmd \<noteq> ScanEOF" and "command_of (sscanf_cmd cmd) = ''SET_ACCESS''"
    by simp_all
  from hc_SET_ACCESS[OF this] c_str_argument_of[OF assms] show ?thesis
    by (simp add: Let_def)
qed

text \<open>
  The response to an unrecognised mode is not the English line: the line
  \<^verbatim>\<open>SET_ACCESS bogus\<close> is answered with \<open>msg_bad_access\<close>.
\<close>

theorem set_access_error_text_counterexample:
  "sscanf_cmd ''SET_ACCESS bogus'' = Scan2 ''SET_ACCESS'' ''bogus'' \<and>
   sent (handle_command device_init fresh_stack ''SET_ACCESS bogus'')
     \<noteq> [''ERROR: Invalid access level (read-only/read-write)'']"
proof -
  have sa: "sscanf_cmd ''SET_ACCESS bogus'' = Scan2 ''SET_ACCESS'' ''bogus''"
    by (rule scan_examples)
  have "handle_command device_init fresh_stack ''SET_ACCESS bogus'' =
      \<lparr>ret = 0, sent = [msg_bad_access], dev = device_init\<rparr>"
    using hc_SET_ACCESS[of "''SET_ACCESS bogus''" device_init fresh_stack] c_str_argument_of[OF sa, of fresh_stack]
    by (simp add: sa Let_def)
  then show ?thesis using sa by (simp add: msg_bad_access_def)
qed

theorem set_access_command_witness:
  "sscanf_cmd ''SET_ACCESS read-only'' = Scan2 ''SET_ACCESS'' ''read-only'' \<and>
   handle_command device_init fresh_stack ''SET_ACCESS read-only'' =
     \<lparr>ret = 0, sent = [''ACCESS_SET: read-only''], dev = device_init\<lparr>access_level := 0\<rparr>\<rparr> \<and>
   sscanf_cmd ''SET_ACCESS bogus'' = Scan2 ''SET_ACCESS'' ''bogus'' \<and>
   handle_command device_init fresh_stack ''SET_ACCESS bogus'' =
     \<lparr>ret = 0, sent = [msg_bad_access], dev = device_init\<rparr>"
proof -
  have s1: "sscanf_cmd ''SET_ACCESS read-only'' = Scan2 ''SET_ACCESS'' ''read-only''"
    and s2: "sscanf_cmd ''SET_ACCESS bogus'' = Scan2 ''SET_ACCESS'' ''bogus''"
    by (rule scan_examples)+
  from set_access_command[OF s1, of device_init fresh_stack] set_access_command[OF s2, of device_init fresh_stack]
    s1 s2 show ?thesis by simp
qed

text \<open>
  Claim C7 (malformed line). A line without a keyword token, that is one that is empty or all
  white space, makes \<^verbatim>\<open>sscanf\<close> return \<^verbatim>\<open>EOF\<close>; the dispatcher sends the text
  \<open>msg_bad_format\<close> of the source (\<^verbatim>\<open>ERROR: \<close> and three Russian words), returns -1 and leaves
  the device unchanged.
\<close>

theorem malformed_line:
  assumes "keyword cmd = []"
  shows "sscanf_cmd cmd = ScanEOF \<and>
         handle_command d stale cmd = \<lparr>ret = - 1, sent = [msg_bad_format], dev = d\<rparr>"
  using assms by (simp add: keyword_Nil_iff hc_EOF)

text \<open>The text sent for a line of one blank is not the English line.\<close>

theorem malformed_text_counterexample:
  "keyword '' '' = [] \<and>
   sent (handle_command device_init fresh_stack '' '') \<noteq> [''ERROR: Invalid command format'']"
proof -
  have "sscanf_cmd '' '' = ScanEOF" by (simp add: scan_eval)
  then show ?thesis by (simp add: hc_EOF msg_bad_format_def keyword_Nil_iff)
qed

theorem malformed_line_witness:
  "keyword '' '' = [] \<and> sscanf_cmd '' '' = ScanEOF \<and>
   handle_command device_init fresh_stack '' '' = \<lparr>ret = - 1, sent = [msg_bad_format], dev = device_init\<rparr>"
proof -
  have kw: "keyword '' '' = []" by (simp add: keyword_def scan_eval)
  from malformed_line[OF kw, of device_init fresh_stack] kw show ?thesis by simp
qed

text \<open>
  Claim C8 (unknown command). A line whose keyword is none of READ, DATA, CLEAR, STATUS,
  SET_ACCESS and HELP is answered with the text \<open>msg_unknown\<close> of the source (\<^verbatim>\<open>ERROR: \<close> and
  Russian words around \<^verbatim>\<open>HELP\<close>), and the device is unchanged in every field: buffer,
  \<open>buffer_size\<close>, both counters and the access level.
\<close>

theorem unknown_command:
  assumes "keyword cmd \<noteq> []" and "keyword cmd \<notin> set vocabulary"
  shows "handle_command d stale cmd = \<lparr>ret = 0, sent = [msg_unknown], dev = d\<rparr>"
  by (rule hc_unknown[OF keyword_unknown[OF assms]])

text \<open>The text sent for the line \<^verbatim>\<open>FOO\<close> is not the English line.\<close>

theorem unknown_text_counterexample:
  "keyword ''FOO'' = ''FOO'' \<and> ''FOO'' \<notin> set vocabulary \<and>
   sent (handle_command device_init fresh_stack ''FOO'')
     \<noteq> [''ERROR: Unknown command. Use HELP for command list.'']"
proof -
  have sc: "sscanf_cmd ''FOO'' \<noteq> ScanEOF" "command_of (sscanf_cmd ''FOO'') \<notin> set vocabulary"
    by (simp_all add: scan_examples vocabulary_def)
  show ?thesis
    by (simp add: hc_unknown[OF sc] keyword_examples vocabulary_def msg_unknown_def)
qed

theorem unknown_command_witness:
  "keyword ''FOO'' \<noteq> [] \<and> keyword ''FOO'' \<notin> set vocabulary \<and>
   handle_command device_init fresh_stack ''FOO'' = \<lparr>ret = 0, sent = [msg_unknown], dev = device_init\<rparr>"
proof -
  have k1: "keyword ''FOO'' \<noteq> []" and k2: "keyword ''FOO'' \<notin> set vocabulary"
    by (simp_all add: keyword_examples vocabulary_def)
  from unknown_command[OF k1 k2, of device_init fresh_stack] k1 k2 show ?thesis by simp
qed

text \<open>
  Claim C9 (the size stays below the capacity). After \<open>device_init\<close> and after every command,
  whatever the line and whatever \<^verbatim>\<open>argument\<close> held before, \<open>buffer_size\<close> is at most
  \<open>DEVICE_BUFFER_SIZE - 1\<close>, so strictly below 1024; the array still has its 1024 bytes, and
  the byte at index \<open>buffer_size\<close> is NUL.
\<close>

theorem buffer_size_below_capacity:
  "reachable d \<Longrightarrow>
     buffer_size d \<le> DEVICE_BUFFER_SIZE - 1 \<and> buffer_size d < 1024 \<and>
     length (buffer d) = DEVICE_BUFFER_SIZE \<and> buffer d ! buffer_size d = NUL"
  by (drule reachable_dev_inv) (simp add: dev_inv_def DEVICE_BUFFER_SIZE_def)

theorem buffer_size_below_capacity_witness:
  "buffer_size (dev (handle_command device_init fresh_stack ''DATA hi'')) = 2 \<and>
   buffer_size (dev (handle_command device_init fresh_stack ''DATA hi'')) < 1024 \<and>
   length (buffer (dev (handle_command device_init fresh_stack ''DATA hi''))) = 1024 \<and>
   buffer (dev (handle_command device_init fresh_stack ''DATA hi'')) ! 2 = NUL"
proof -
  have r: "reachable (dev (handle_command device_init fresh_stack ''DATA hi''))"
    by (rule reachable.step[OF reachable.init])
  have sc: "sscanf_cmd ''DATA hi'' = Scan2 ''DATA'' ''hi''" by (rule scan_examples)
  have a: "access_level device_init \<noteq> 0" by (simp add: init_facts)
  have l: "length (buffer device_init) = DEVICE_BUFFER_SIZE"
    using dev_inv_init by (simp add: dev_inv_def)
  have n: "buffer_size (dev (handle_command device_init fresh_stack ''DATA hi'')) = 2"
    using data_command_with_argument(2)[OF sc a l, of fresh_stack] by simp
  from buffer_size_below_capacity[OF r] n show ?thesis
    by (simp add: DEVICE_BUFFER_SIZE_def)
qed

text \<open>
  Claim C10 (carriage return next to last). For a received message of at least two bytes the
  connection handler passes a buffer \<open>b\<close> to the dispatcher. When the byte next to last is a
  carriage return, the C string in \<open>b\<close> is the one of the message cut there, whatever the
  last byte is. A carriage return at any other index of the message is still in \<open>b\<close>.
\<close>

theorem carriage_return_cut:
  assumes "2 \<le> length msg"
  shows "\<exists>b. client_thread_buf msg = Some b \<and>
             client_thread_step d stale msg = Some (handle_command d stale b) \<and>
             (msg ! (length msg - 2) = CR \<longrightarrow> c_str b = c_str (take (length msg - 2) msg)) \<and>
             (\<forall>i < length msg. i \<noteq> length msg - 2 \<longrightarrow> msg ! i = CR \<longrightarrow> b ! i = CR)"
proof -
  from client_thread_buf_Some[OF assms(1)] obtain b where
    b: "client_thread_buf msg = Some b" and l: "length b = Suc (length msg)"
    and keep: "\<forall>i < length msg. i \<noteq> length msg - 2 \<longrightarrow> msg ! i = CR \<longrightarrow> b ! i = CR"
    and cut: "msg ! (length msg - 2) = CR \<longrightarrow> b ! (length msg - 2) = NUL"
    and front: "\<forall>i < length msg - 2. b ! i = msg ! i"
    by blast
  have "c_str b = c_str (take (length msg - 2) msg)" if "msg ! (length msg - 2) = CR"
    using l cut that front by (intro c_str_cut) auto
  with b keep show ?thesis by (auto simp: client_thread_step_def)
qed

theorem carriage_return_cut_witness:
  "2 \<le> length [CHR ''X'', CR, CHR ''Y''] \<and> [CHR ''X'', CR, CHR ''Y''] ! 1 = CR \<and>
   client_thread_buf [CHR ''X'', CR, CHR ''Y''] = Some [CHR ''X'', NUL, CHR ''Y'', NUL] \<and>
   c_str [CHR ''X'', NUL, CHR ''Y'', NUL] = ''X'' \<and>
   sscanf_cmd [CHR ''X'', NUL, CHR ''Y'', NUL] = Scan1 ''X'' \<and>
   client_thread_buf [CR, CHR ''X'', CHR ''Y''] = Some [CR, CHR ''X'', CHR ''Y'', NUL]"
proof -
  have l: "2 \<le> length [CHR ''X'', CR, CHR ''Y'']" by simp
  have e: "client_thread_buf [CHR ''X'', CR, CHR ''Y''] = Some [CHR ''X'', NUL, CHR ''Y'', NUL]"
    by (simp add: client_thread_buf_def Let_def CR_def LF_def NUL_def)
  have e2: "client_thread_buf [CR, CHR ''X'', CHR ''Y''] = Some [CR, CHR ''X'', CHR ''Y'', NUL]"
    by (simp add: client_thread_buf_def Let_def CR_def LF_def NUL_def)
  have c: "c_str [CHR ''X'', NUL, CHR ''Y'', NUL] = ''X''" by (simp add: c_str_def NUL_def)
  have s: "sscanf_cmd [CHR ''X'', NUL, CHR ''Y'', NUL] = Scan1 ''X''" by (simp add: scan_eval)
  from carriage_return_cut[OF l, of device_init fresh_stack] l e e2 c s show ?thesis by simp
qed

end
